theory Spec2Isabelle
  imports Complex_Main "HOL-Library.Word" "HOL-Library.Multiset"
begin

section \<open>Path and string helpers of the Go standard library\<close>

text \<open>
  The workers derive every storage path from \<open>filepath.Base\<close>, \<open>filepath.Ext\<close> and
  \<open>strings.TrimSuffix\<close>. They are modelled after the Go standard library on Linux (the
  Lambda runtime), where the only path separator is the slash and there is no volume
  name. A Go string is a byte sequence; it is a \<open>string\<close> (a list of characters) here.
\<close>

definition IsPathSeparator :: "char \<Rightarrow> bool" where
  "IsPathSeparator c = (c = CHR ''/'')"

text \<open>
  \<open>filepath.Base\<close>: the empty path gives a dot; trailing separators are stripped; the
  part after the last separator is kept; a path of separators only gives one separator.
\<close>

definition Base :: "string \<Rightarrow> string" where
  "Base path =
     (if path = [] then ''.''
      else
        let stripped = rev (dropWhile IsPathSeparator (rev path));
            element = rev (takeWhile (\<lambda>c. \<not> IsPathSeparator c) (rev stripped))
        in if element = [] then ''/'' else element)"

text \<open>
  \<open>filepath.Ext\<close> walks from the last byte towards the front, stops at a separator,
  and returns the suffix that starts at the first dot it meets. \<open>ext_scan\<close> is that loop:
  its first argument is the unread part of the path, last byte first, and its second
  the bytes already passed.
\<close>

fun ext_scan :: "string \<Rightarrow> string \<Rightarrow> string" where
  "ext_scan [] passed = []"
| "ext_scan (c # front) passed =
     (if IsPathSeparator c then []
      else if c = CHR ''.'' then c # passed
      else ext_scan front (c # passed))"

definition Ext :: "string \<Rightarrow> string" where
  "Ext path = ext_scan (rev path) []"

definition HasSuffix :: "string \<Rightarrow> string \<Rightarrow> bool" where
  "HasSuffix s suffix =
     (length suffix \<le> length s \<and> drop (length s - length suffix) s = suffix)"

definition TrimSuffix :: "string \<Rightarrow> string \<Rightarrow> string" where
  "TrimSuffix s suffix =
     (if HasSuffix s suffix then take (length s - length suffix) s else s)"

section \<open>The three copies of extractFilename\<close>

text \<open>
  Each worker is its own \<open>package main\<close> and carries its own copy of the function.
\<close>

definition extractFilename_metadata :: "string \<Rightarrow> string" where
  "extractFilename_metadata input =
     (let base = Base input;
          name = TrimSuffix base (Ext base)
      in name)"

definition extractFilename_converter :: "string \<Rightarrow> string" where
  "extractFilename_converter input =
     (let base = Base input;
          name = TrimSuffix base (Ext base)
      in name)"

definition extractFilename_resizer :: "string \<Rightarrow> string" where
  "extractFilename_resizer input =
     (let base = Base input;
          name = TrimSuffix base (Ext base)
      in name)"

section \<open>The world outside the handlers\<close>

text \<open>
  A Go \<open>error\<close> is a value carrying a message. A run-time panic (a nil pointer
  dereference) ends the invocation as a failure too; it is kept apart.
\<close>

datatype error = Error string | Panic string

type_synonym bytes = "8 word list"

record messageBody =
  Bucket :: string
  Key :: string

record SQSMessage =
  MessageId :: string
  Body :: string

record SQSEvent =
  Records :: "SQSMessage list"

text \<open>What \<open>GetObject\<close> returns: two optional headers (pointers in Go) and the content.\<close>

record GetObjectOutput =
  ContentType :: "string option"
  ContentLength :: "int option"
  ObjBody :: bytes

text \<open>A decoded picture: its bounds and its pixel data.\<close>

record image =
  Dx :: nat
  Dy :: nat
  Pix :: bytes

text \<open>\<open>image.Config\<close>, the result of decoding a header only.\<close>

record Config =
  ConfigWidth :: int
  ConfigHeight :: int

text \<open>What \<open>os.Stat\<close> reports, with the modification time already in RFC 3339.\<close>

record FileInfo =
  Size :: int
  Name :: string
  ModTimeRFC3339 :: string

text \<open>The notification of one write to the blob store, as far as the notifier reads it.\<close>

record S3EventRecord =
  BucketName :: string
  URLDecodedKey :: string

record S3Event =
  S3Records :: "S3EventRecord list"

record resizeTask =
  SizeName :: string
  Width :: nat

datatype AttributeValue = S string | M "(string \<times> AttributeValue) list"

type_synonym item = "(string \<times> AttributeValue) list"

text \<open>
  The state the handlers act on: the blob store, and a log of every write that went
  through (uploads to the blob store, items put into the table, messages published to
  a topic), oldest first. The \<open>clock\<close> counts the calls made to the outside so far.
\<close>

record world =
  clock :: nat
  objects :: "string \<times> string \<Rightarrow> GetObjectOutput option"
  uploads :: "(string \<times> string \<times> bytes) list"
  table :: "(string \<times> item) list"
  published :: "(string \<times> string) list"

text \<open>
  What the handlers cannot control is a parameter: the result of loading the
  configuration, the JSON codec, the image codecs, the resampling kernel, and, for the
  \<open>n\<close>-th call to the outside, whether it fails (\<open>fault\<close>), which message id a publish
  returns and which modification time the file system reports. \<open>goroutine_order\<close> is
  the order in which the scheduler lets the parallel resize tasks of one message reach
  their upload.
\<close>

record env =
  LoadDefaultConfig :: "error option"
  json_Unmarshal :: "string \<Rightarrow> error + messageBody"
  json_Marshal :: "messageBody \<Rightarrow> error + string"
  image_Decode :: "bytes \<Rightarrow> error + image \<times> string"
  image_DecodeConfig :: "bytes \<Rightarrow> error + Config \<times> string"
  jpeg_Encode :: "image \<Rightarrow> nat \<Rightarrow> error + bytes"
  Lanczos3 :: "nat \<Rightarrow> nat \<Rightarrow> image \<Rightarrow> bytes"
  fault :: "nat \<Rightarrow> error option"
  MessageIdOf :: "nat \<Rightarrow> string option"
  ModTime :: "nat \<Rightarrow> string"
  goroutine_order :: "nat \<Rightarrow> resizeTask list \<Rightarrow> resizeTask list"

text \<open>
  A step that may fail and may change the world. \<open>bind_io\<close> is Go's
  \<open>x, err := step(); if err != nil { return err }\<close>.
\<close>

type_synonym 'a io = "world \<Rightarrow> (error + 'a) \<times> world"

definition return_io :: "'a \<Rightarrow> 'a io" where
  "return_io x w = (Inr x, w)"

definition lift_io :: "error + 'a \<Rightarrow> 'a io" where
  "lift_io r w = (r, w)"

definition bind_io :: "'a io \<Rightarrow> ('a \<Rightarrow> 'b io) \<Rightarrow> 'b io" where
  "bind_io m f w = (case m w of (Inl e, w') \<Rightarrow> (Inl e, w') | (Inr x, w') \<Rightarrow> f x w')"

text \<open>Dereferencing a pointer of a response: nil panics.\<close>

definition deref :: "'a option \<Rightarrow> 'a io" where
  "deref p w =
     (case p of
        None \<Rightarrow> (Inl (Panic ''invalid memory address or nil pointer dereference''), w)
      | Some x \<Rightarrow> (Inr x, w))"

text \<open>
  A call to the outside (network, file system): it advances the clock, and fails when
  the environment says so; otherwise it acts.
\<close>

definition tick :: "world \<Rightarrow> world" where
  "tick w = w\<lparr>clock := Suc (clock w)\<rparr>"

definition call :: "env \<Rightarrow> 'a io \<Rightarrow> 'a io" where
  "call env act w =
     (case fault env (clock w) of
        Some e \<Rightarrow> (Inl e, tick w)
      | None \<Rightarrow> act (tick w))"

subsection \<open>The collaborators\<close>

definition s3_GetObject :: "env \<Rightarrow> string \<Rightarrow> string \<Rightarrow> GetObjectOutput io" where
  "s3_GetObject env bucket key =
     call env (\<lambda>w. case objects w (bucket, key) of
                      None \<Rightarrow> (Inl (Error ''NoSuchKey''), w)
                    | Some output \<Rightarrow> (Inr output, w))"

text \<open>
  An upload stores the bytes under bucket and key, replacing what was there, and is
  logged. The handlers set no content type, so the store's default applies.
\<close>

definition stored :: "bytes \<Rightarrow> GetObjectOutput" where
  "stored body =
     \<lparr>ContentType = Some ''binary/octet-stream'',
      ContentLength = Some (int (length body)),
      ObjBody = body\<rparr>"

definition s3_PutObject :: "env \<Rightarrow> string \<Rightarrow> string \<Rightarrow> bytes \<Rightarrow> unit io" where
  "s3_PutObject env bucket key body =
     call env (\<lambda>w. (Inr (),
        w\<lparr>objects := (objects w)((bucket, key) \<mapsto> stored body),
          uploads := uploads w @ [(bucket, key, body)]\<rparr>))"

definition dynamodb_PutItem :: "env \<Rightarrow> string \<Rightarrow> item \<Rightarrow> unit io" where
  "dynamodb_PutItem env tbl it =
     call env (\<lambda>w. (Inr (), w\<lparr>table := table w @ [(tbl, it)]\<rparr>))"

text \<open>A publish appends the message to the topic's log and answers with a message id.\<close>

definition sns_Publish :: "env \<Rightarrow> string \<Rightarrow> string \<Rightarrow> string option io" where
  "sns_Publish env topic message =
     call env (\<lambda>w. (Inr (MessageIdOf env (clock w)),
        w\<lparr>published := published w @ [(topic, message)]\<rparr>))"

text \<open>
  The body of a fetched object is a stream: reading it is a call to the outside, and
  so is decoding straight from it.
\<close>

definition io_ReadAll :: "env \<Rightarrow> bytes \<Rightarrow> bytes io" where
  "io_ReadAll env stream = call env (\<lambda>w. (Inr stream, w))"

definition image_Decode_stream :: "env \<Rightarrow> bytes \<Rightarrow> (image \<times> string) io" where
  "image_Decode_stream env stream = call env (\<lambda>w. (image_Decode env stream, w))"

text \<open>
  The local file system of the metadata worker. Writing to a path that is a directory
  fails; every operation may fail for reasons of its own. The temporary file is removed
  when \<open>generateMetadata\<close> returns, so no file system state is kept: what is read back
  and measured is what was written.
\<close>

definition os_WriteFile :: "env \<Rightarrow> string \<Rightarrow> bytes \<Rightarrow> unit io" where
  "os_WriteFile env name content =
     call env (\<lambda>w. if name = ''/tmp'' \<or> name = ''/''
                    then (Inl (Error ''is a directory''), w)
                    else (Inr (), w))"

definition os_Open :: "env \<Rightarrow> string \<Rightarrow> unit io" where
  "os_Open env name = call env (\<lambda>w. (Inr (), w))"

definition image_DecodeConfig_file :: "env \<Rightarrow> bytes \<Rightarrow> (Config \<times> string) io" where
  "image_DecodeConfig_file env content =
     call env (\<lambda>w. (image_DecodeConfig env content, w))"

definition os_Stat :: "env \<Rightarrow> string \<Rightarrow> bytes \<Rightarrow> FileInfo io" where
  "os_Stat env name content =
     call env (\<lambda>w. (Inr \<lparr>Size = int (length content), Name = Base name,
                            ModTimeRFC3339 = ModTime env (clock w)\<rparr>, w))"

text \<open>
  \<open>filepath.Join("/tmp", elem)\<close> for an \<open>elem\<close> that \<open>filepath.Base\<close> returned (not
  empty, and without a separator unless it is the separator): the joined path is
  cleaned, so a dot or a separator leaves the directory and two dots its parent.
\<close>

definition Join_tmp :: "string \<Rightarrow> string" where
  "Join_tmp elem =
     (if elem = ''.'' \<or> elem = ''/'' then ''/tmp''
      else if elem = ''..'' then ''/''
      else ''/tmp/'' @ elem)"

text \<open>\<open>strconv.Itoa\<close> and \<open>strconv.FormatInt\<close> in base ten.\<close>

fun digits :: "nat \<Rightarrow> string" where
  "digits n =
     (if n < 10 then [''0123456789'' ! n]
      else digits (n div 10) @ [''0123456789'' ! (n mod 10)])"

declare digits.simps [simp del]

definition Itoa :: "int \<Rightarrow> string" where
  "Itoa i = (if i < 0 then CHR ''-'' # digits (nat (- i)) else digits (nat i))"

text \<open>A loop over the records of an event that returns at the first error.\<close>

fun for_each :: "('a \<Rightarrow> unit io) \<Rightarrow> 'a list \<Rightarrow> unit io" where
  "for_each body [] w = (Inr (), w)"
| "for_each body (x # xs) w =
     (case body x w of
        (Inl e, w') \<Rightarrow> (Inl e, w')
      | (Inr u, w') \<Rightarrow> for_each body xs w')"

section \<open>Upload Notifier\<close>

definition newImageUploadedTopicArn :: string where
  "newImageUploadedTopicArn = ''arn:aws:sns:us-east-1:116981782358:new-image-uploaded''"

text \<open>The message the notifier builds for one record: its bucket and its key.\<close>

definition payload_of :: "S3EventRecord \<Rightarrow> messageBody" where
  "payload_of record = \<lparr>Bucket = BucketName record, Key = URLDecodedKey record\<rparr>"

text \<open>The body of the notifier's loop, for one record of the event.\<close>

definition notify_record :: "env \<Rightarrow> S3EventRecord \<Rightarrow> unit io" where
  "notify_record env record =
     (let bucket = BucketName record;
          key = URLDecodedKey record;
          payload = \<lparr>Bucket = bucket, Key = key\<rparr>
      in bind_io (lift_io (json_Marshal env payload)) (\<lambda>message.
         bind_io (sns_Publish env newImageUploadedTopicArn message) (\<lambda>resp.
         bind_io (deref resp) (\<lambda>messageId.
         return_io ()))))"

definition handler_notifier :: "env \<Rightarrow> S3Event \<Rightarrow> world \<Rightarrow> error option \<times> world" where
  "handler_notifier env s3Event w =
     (case LoadDefaultConfig env of
        Some err \<Rightarrow> (Some err, w)
      | None \<Rightarrow>
          (case for_each (notify_record env) (S3Records s3Event) w of
             (Inl err, w') \<Rightarrow> (Some err, w')
           | (Inr u, w') \<Rightarrow> (None, w')))"

section \<open>The helpers every worker repeats\<close>

text \<open>
  \<open>getObject\<close>, \<open>putObject\<close> and \<open>convertToJPEG\<close> are the same text in each worker
  that has them: they log, and hand the result of the call on.
\<close>

definition getObject :: "env \<Rightarrow> string \<Rightarrow> string \<Rightarrow> GetObjectOutput io" where
  "getObject env bucket key = s3_GetObject env bucket key"

definition putObject :: "env \<Rightarrow> string \<Rightarrow> string \<Rightarrow> bytes \<Rightarrow> unit io" where
  "putObject env bucket key body = s3_PutObject env bucket key body"

definition convertToJPEG :: "env \<Rightarrow> image \<Rightarrow> error + bytes" where
  "convertToJPEG env img = jpeg_Encode env img 100"

section \<open>Metadata Worker\<close>

definition tableName :: string where
  "tableName = ''pixel-metadata''"

definition createDynamoDBItem :: "env \<Rightarrow> item \<Rightarrow> unit io" where
  "createDynamoDBItem env it = dynamodb_PutItem env tableName it"

definition convertToAttributeValue :: "(string \<times> string) list \<Rightarrow> (string \<times> AttributeValue) list" where
  "convertToAttributeValue data = map (\<lambda>(key, value). (key, S value)) data"

definition generateMetadata :: "env \<Rightarrow> string \<Rightarrow> string \<Rightarrow> (string \<times> string) list io" where
  "generateMetadata env bucket key =
     bind_io (getObject env bucket key) (\<lambda>objOutput.
     bind_io (deref (ContentType objOutput)) (\<lambda>contentType.
     bind_io (deref (ContentLength objOutput)) (\<lambda>contentLength.
     bind_io (io_ReadAll env (ObjBody objOutput)) (\<lambda>bodyBytes.
     let localFilePath = Join_tmp (Base key) in
     bind_io (os_WriteFile env localFilePath bodyBytes) (\<lambda>u.
     bind_io (os_Open env localFilePath) (\<lambda>file.
     bind_io (image_DecodeConfig_file env bodyBytes) (\<lambda>(cfg, format).
     bind_io (os_Stat env localFilePath bodyBytes) (\<lambda>fileInfo.
     return_io
       [(''width'', Itoa (ConfigWidth cfg)),
        (''height'', Itoa (ConfigHeight cfg)),
        (''format'', format),
        (''file_size'', Itoa (Size fileInfo)),
        (''file_name'', Name fileInfo),
        (''last_modified'', ModTimeRFC3339 fileInfo)]))))))))"

text \<open>The body of the metadata worker's loop, for one queue message.\<close>

definition process_metadata :: "env \<Rightarrow> SQSMessage \<Rightarrow> unit io" where
  "process_metadata env record =
     bind_io (lift_io (json_Unmarshal env (Body record))) (\<lambda>body.
     bind_io (generateMetadata env (Bucket body) (Key body)) (\<lambda>metadata.
     createDynamoDBItem env
       [(''name'', S (extractFilename_metadata (Key body))),
        (''bucket'', S (Bucket body)),
        (''metadata'', M (convertToAttributeValue metadata))]))"


section \<open>Converter Worker\<close>

definition ConvertedFolder :: string where
  "ConvertedFolder = ''converted/''"

text \<open>The body of the converter's loop, for one queue message.\<close>

definition process_converter :: "env \<Rightarrow> SQSMessage \<Rightarrow> unit io" where
  "process_converter env record =
     bind_io (lift_io (json_Unmarshal env (Body record))) (\<lambda>body.
     bind_io (getObject env (Bucket body) (Key body)) (\<lambda>objOutput.
     bind_io (deref (ContentType objOutput)) (\<lambda>contentType.
     bind_io (deref (ContentLength objOutput)) (\<lambda>contentLength.
     bind_io (image_Decode_stream env (ObjBody objOutput)) (\<lambda>(img, format).
     bind_io (lift_io (convertToJPEG env img)) (\<lambda>jpegImg.
     putObject env (Bucket body)
       (ConvertedFolder @ extractFilename_converter (Key body) @ ''.jpg'') jpegImg))))))"

definition handler_converter :: "env \<Rightarrow> SQSEvent \<Rightarrow> world \<Rightarrow> error option \<times> world" where
  "handler_converter env event w =
     (case LoadDefaultConfig env of
        Some err \<Rightarrow> (Some err, w)
      | None \<Rightarrow>
          (case for_each (process_converter env) (Records event) w of
             (Inl err, w') \<Rightarrow> (Some err, w')
           | (Inr u, w') \<Rightarrow> (None, w')))"

section \<open>Resizer Worker\<close>

subsection \<open>The resize library\<close>

text \<open>
  \<open>resize.Resize(width, height, img, interp)\<close> of \<open>github.com/nfnt/resize\<close>, as far
  as the bounds of its result go. A dimension given as 0 is computed from the other
  one and the source's aspect ratio. The library computes in \<open>float64\<close>; the model
  computes in the reals, so it is the library's formula without the rounding error of
  the two divisions. Converting to \<open>uint\<close> truncates. Where the source has no width or
  no height, the library returns the source whatever the factors are, so the value of
  a division by zero (0 here) is never used.
\<close>

definition calcFactors :: "nat \<Rightarrow> nat \<Rightarrow> real \<Rightarrow> real \<Rightarrow> real \<times> real" where
  "calcFactors width height oldWidth oldHeight =
     (if width = 0 then
        (if height = 0 then (1, 1)
         else (oldHeight / real height, oldHeight / real height))
      else
        (if height = 0 then (oldWidth / real width, oldWidth / real width)
         else (oldWidth / real width, oldHeight / real height)))"

definition Resize :: "nat \<Rightarrow> nat \<Rightarrow> image \<Rightarrow> (nat \<Rightarrow> nat \<Rightarrow> image \<Rightarrow> bytes) \<Rightarrow> image" where
  "Resize width height img interp =
     (let (scaleX, scaleY) = calcFactors width height (real (Dx img)) (real (Dy img));
          width' = (if width = 0 then nat \<lfloor>7 / 10 + real (Dx img) / scaleX\<rfloor> else width);
          height' = (if height = 0 then nat \<lfloor>7 / 10 + real (Dy img) / scaleY\<rfloor> else height)
      in if width' = Dx img \<and> height' = Dy img then img
         else if Dx img \<le> 0 \<or> Dy img \<le> 0 then img
         else \<lparr>Dx = width', Dy = height', Pix = interp width' height' img\<rparr>)"

subsection \<open>The handler\<close>

definition ResizedFolder :: string where
  "ResizedFolder = ''resized/''"

definition resizeTasks :: "resizeTask list" where
  "resizeTasks =
     [\<lparr>SizeName = ''thumbnail'', Width = 100\<rparr>,
      \<lparr>SizeName = ''medium'', Width = 500\<rparr>,
      \<lparr>SizeName = ''large'', Width = 1000\<rparr>]"

text \<open>
  One resize task, the function literal started with \<open>go\<close>. It returns nothing: where
  it meets an error it logs and returns. Its first check reads the \<open>err\<close> of the
  enclosing loop body (the result of the decode, nil by then), which is passed in here;
  the \<open>err\<close> of the two later checks is the task's own.
\<close>

definition resize_goroutine ::
    "env \<Rightarrow> error option \<Rightarrow> messageBody \<Rightarrow> image \<Rightarrow> resizeTask \<Rightarrow> world \<Rightarrow> world" where
  "resize_goroutine env err body img task w =
     (let resizedImg = Resize (Width task) 0 img (Lanczos3 env) in
      if err \<noteq> None then w
      else
        (case convertToJPEG env resizedImg of
           Inl err' \<Rightarrow> w
         | Inr jpegImg \<Rightarrow>
             (case putObject env (Bucket body)
                     (ResizedFolder @ extractFilename_resizer (Key body) @ ''/''
                        @ SizeName task @ ''.jpg'') jpegImg w of
                (Inl err', w') \<Rightarrow> w'
              | (Inr u, w') \<Rightarrow> w')))"

text \<open>
  The three tasks run in parallel and the loop body waits for all of them. A task
  shares nothing mutable with the others and touches the outside once, with its upload
  at its end, so a parallel run is the tasks one after the other in the order in which
  they reach their uploads. That order is the scheduler's, \<open>goroutine_order\<close>: some
  arrangement of the task list.
\<close>

definition wait_all :: "env \<Rightarrow> messageBody \<Rightarrow> image \<Rightarrow> unit io" where
  "wait_all env body img w =
     (Inr (), fold (resize_goroutine env None body img)
                (goroutine_order env (clock w) resizeTasks) w)"

text \<open>The body of the resizer's loop, for one queue message.\<close>

definition process_resizer :: "env \<Rightarrow> SQSMessage \<Rightarrow> unit io" where
  "process_resizer env record =
     bind_io (lift_io (json_Unmarshal env (Body record))) (\<lambda>body.
     bind_io (getObject env (Bucket body) (Key body)) (\<lambda>objOutput.
     bind_io (deref (ContentType objOutput)) (\<lambda>contentType.
     bind_io (deref (ContentLength objOutput)) (\<lambda>contentLength.
     bind_io (image_Decode_stream env (ObjBody objOutput)) (\<lambda>(img, format).
     wait_all env body img)))))"

definition handler_resizer :: "env \<Rightarrow> SQSEvent \<Rightarrow> world \<Rightarrow> error option \<times> world" where
  "handler_resizer env event w =
     (case LoadDefaultConfig env of
        Some err \<Rightarrow> (Some err, w)
      | None \<Rightarrow>
          (case for_each (process_resizer env) (Records event) w of
             (Inl err, w') \<Rightarrow> (Some err, w')
           | (Inr u, w') \<Rightarrow> (None, w')))"

text \<open>The path a resize task uploads to.\<close>

definition resized_path :: "messageBody \<Rightarrow> resizeTask \<Rightarrow> string" where
  "resized_path body task =
     ResizedFolder @ extractFilename_resizer (Key body) @ ''/'' @ SizeName task @ ''.jpg''"

section \<open>An example deployment\<close>

text \<open>
  One bucket with a readable picture of 50 by 40 pixels and an object that no codec
  accepts, an environment in which nothing fails, and variations of it in which a
  single call fails. The theorems below are instantiated at them.
\<close>

definition png_bytes :: bytes where
  "png_bytes = [137, 80, 78, 71]"

definition corrupt_bytes :: bytes where
  "corrupt_bytes = [0, 1, 2]"

definition example_env :: env where
  \<open>example_env =
     \<lparr>LoadDefaultConfig = None,
      json_Unmarshal = (\<lambda>s.
        if s = ''{"bucket":"pixels","key":"photos/aaa.png"}''
        then Inr \<lparr>Bucket = ''pixels'', Key = ''photos/aaa.png''\<rparr>
        else if s = ''{"bucket":"pixels","key":"docs/broken.gif"}''
        then Inr \<lparr>Bucket = ''pixels'', Key = ''docs/broken.gif''\<rparr>
        else Inl (Error ''invalid character'')),
      json_Marshal = (\<lambda>p. Inr (''{"bucket":"'' @ Bucket p @ ''","key":"'' @ Key p @ ''"}'')),
      image_Decode = (\<lambda>bs.
        if bs = png_bytes then Inr (\<lparr>Dx = 50, Dy = 40, Pix = []\<rparr>, ''png'')
        else Inl (Error ''image: unknown format'')),
      image_DecodeConfig = (\<lambda>bs.
        if bs = png_bytes then Inr (\<lparr>ConfigWidth = 50, ConfigHeight = 40\<rparr>, ''png'')
        else Inl (Error ''image: unknown format'')),
      jpeg_Encode = (\<lambda>img quality.
        Inr ([255, 216] @ (if Dx img \<le> 100 then [1] else if Dx img \<le> 500 then [2] else [3]))),
      Lanczos3 = (\<lambda>width height img. []),
      fault = (\<lambda>n. None),
      MessageIdOf = (\<lambda>n. Some ''0f1e2d''),
      ModTime = (\<lambda>n. ''2024-05-01T10:00:00Z''),
      goroutine_order = (\<lambda>n tasks. tasks)\<rparr>\<close>

definition example_world :: world where
  "example_world =
     \<lparr>clock = 0,
      objects = [(''pixels'', ''photos/aaa.png'') \<mapsto> stored png_bytes,
                 (''pixels'', ''docs/broken.gif'') \<mapsto> stored corrupt_bytes],
      uploads = [],
      table = [],
      published = []\<rparr>"

definition good_message :: SQSMessage where
  \<open>good_message = \<lparr>MessageId = ''m-1'', Body = ''{"bucket":"pixels","key":"photos/aaa.png"}''\<rparr>\<close>

definition corrupt_message :: SQSMessage where
  \<open>corrupt_message = \<lparr>MessageId = ''m-2'', Body = ''{"bucket":"pixels","key":"docs/broken.gif"}''\<rparr>\<close>

definition example_notification :: S3Event where
  "example_notification =
     \<lparr>S3Records = [\<lparr>BucketName = ''pixels'', URLDecodedKey = ''photos/aaa.png''\<rparr>,
                   \<lparr>BucketName = ''pixels'', URLDecodedKey = ''photos/bbb.jpg''\<rparr>]\<rparr>"

definition publish_fails_env :: env where
  "publish_fails_env =
     example_env\<lparr>fault := (\<lambda>n. if n = 1 then Some (Error ''RequestTimeout'') else None)\<rparr>"



text \<open>
  The picture the example environment decodes, an environment in which the second
  upload of a run of the resizer fails (the calls of a message are numbered from 0:
  the fetch, the decode, then the uploads), and one whose scheduler runs the resize
  tasks last to first.
\<close>

definition small_image :: image where
  "small_image = \<lparr>Dx = 50, Dy = 40, Pix = []\<rparr>"

definition upload_fails_env :: env where
  "upload_fails_env =
     example_env\<lparr>fault := (\<lambda>n. if n = 3 then Some (Error ''RequestTimeout'') else None)\<rparr>"

definition reversed_order_env :: env where
  "reversed_order_env = example_env\<lparr>goroutine_order := (\<lambda>n tasks. rev tasks)\<rparr>"

section \<open>What a step leaves untouched\<close>

text \<open>
  Two worlds have the same writes when nothing was uploaded, put or published between
  them and the blob store holds the same objects. A step only reads when, whatever its
  result, it leaves the writes as they were.
\<close>

definition same_writes :: "world \<Rightarrow> world \<Rightarrow> bool" where
  "same_writes w w' \<longleftrightarrow>
     uploads w' = uploads w \<and> objects w' = objects w \<and> table w' = table w
     \<and> published w' = published w"

definition reads_only :: "'a io \<Rightarrow> bool" where
  "reads_only m \<longleftrightarrow> (\<forall>w res w'. m w = (res, w') \<longrightarrow> same_writes w w')"

section \<open>Unfolding sets\<close>

lemmas fixture_defs = example_env_def example_world_def good_message_def corrupt_message_def
  png_bytes_def corrupt_bytes_def

lemmas io_defs = bind_io_def lift_io_def return_io_def deref_def call_def tick_def
  s3_GetObject_def s3_PutObject_def dynamodb_PutItem_def sns_Publish_def io_ReadAll_def
  image_Decode_stream_def getObject_def putObject_def

lemmas worker_defs = process_metadata_def generateMetadata_def createDynamoDBItem_def
  convertToAttributeValue_def os_WriteFile_def os_Open_def os_Stat_def
  image_DecodeConfig_file_def Join_tmp_def tableName_def Itoa_def
  process_converter_def convertToJPEG_def ConvertedFolder_def
  process_resizer_def wait_all_def resize_goroutine_def resizeTasks_def Resize_def
  calcFactors_def ResizedFolder_def stored_def

lemmas path_defs = extractFilename_metadata_def extractFilename_converter_def
  extractFilename_resizer_def Base_def Ext_def TrimSuffix_def HasSuffix_def IsPathSeparator_def

section \<open>Properties of the path helpers\<close>

lemma Base_plain:
  assumes "name \<noteq> []" and "CHR ''/'' \<notin> set name"
  shows "Base name = name"
proof -
  have a: "dropWhile IsPathSeparator (rev name) = rev name"
    using assms by (cases "rev name") (auto simp: IsPathSeparator_def)
  have b: "takeWhile (\<lambda>c. \<not> IsPathSeparator c) (rev name) = rev name"
    using assms by (auto simp: IsPathSeparator_def)
  show ?thesis using assms by (simp add: Base_def a b)
qed

lemma Base_dir:
  assumes "name \<noteq> []" and "CHR ''/'' \<notin> set name"
  shows "Base (dir @ CHR ''/'' # name) = name"
proof -
  have a: "dropWhile IsPathSeparator (rev name @ CHR ''/'' # rev dir) = rev name @ CHR ''/'' # rev dir"
    using assms by (cases "rev name") (auto simp: IsPathSeparator_def)
  have b: "takeWhile (\<lambda>c. \<not> IsPathSeparator c) (rev name @ CHR ''/'' # rev dir) = rev name"
    using assms by (simp add: IsPathSeparator_def takeWhile_append)
  show ?thesis using assms by (simp add: Base_def a b)
qed

lemma Base_no_separator:
  assumes "Base path \<noteq> ''/''"
  shows "CHR ''/'' \<notin> set (Base path)"
  using assms
  by (auto simp: Base_def Let_def IsPathSeparator_def split: if_splits dest: set_takeWhileD)

lemma ext_scan_dot:
  assumes "CHR ''.'' \<notin> set xs" and "CHR ''/'' \<notin> set xs"
  shows "ext_scan (xs @ CHR ''.'' # front) passed = CHR ''.'' # rev xs @ passed"
  using assms by (induction xs arbitrary: passed) (auto simp: IsPathSeparator_def)

lemma ext_scan_no_dot:
  assumes "CHR ''.'' \<notin> set xs"
  shows "ext_scan xs passed = []"
  using assms by (induction xs arbitrary: passed) auto

lemma Ext_dot:
  assumes "CHR ''.'' \<notin> set ext" and "CHR ''/'' \<notin> set ext"
  shows "Ext (stem @ CHR ''.'' # ext) = CHR ''.'' # ext"
  using ext_scan_dot [of "rev ext" "rev stem" "[]"] assms by (simp add: Ext_def)

lemma Ext_no_dot:
  assumes "CHR ''.'' \<notin> set name"
  shows "Ext name = []"
  using assms by (simp add: Ext_def ext_scan_no_dot)

lemma TrimSuffix_append: "TrimSuffix (s @ t) t = s"
  by (simp add: TrimSuffix_def HasSuffix_def)

lemma TrimSuffix_Nil: "TrimSuffix s [] = s"
  by (simp add: TrimSuffix_def HasSuffix_def)

lemma strip_extension:
  assumes "CHR ''.'' \<notin> set ext" and "CHR ''/'' \<notin> set ext"
  shows "TrimSuffix (stem @ CHR ''.'' # ext) (Ext (stem @ CHR ''.'' # ext)) = stem"
  using TrimSuffix_append [of stem "CHR ''.'' # ext"] assms by (simp add: Ext_dot)

lemma strip_no_extension:
  assumes "CHR ''.'' \<notin> set name"
  shows "TrimSuffix name (Ext name) = name"
  using assms by (simp add: Ext_no_dot TrimSuffix_Nil)

lemma hidden_name_has_no_stem:
  assumes "Base key = CHR ''.'' # rest" and "CHR ''.'' \<notin> set rest"
  shows "TrimSuffix (Base key) (Ext (Base key)) = []"
proof -
  have "Base key \<noteq> ''/''" using assms(1) by simp
  then have "CHR ''/'' \<notin> set (Base key)" by (rule Base_no_separator)
  then have "CHR ''/'' \<notin> set rest" using assms(1) by simp
  then have "Ext ([] @ CHR ''.'' # rest) = CHR ''.'' # rest"
    using assms(2) by (intro Ext_dot) simp_all
  then show ?thesis
    using assms(1) TrimSuffix_append [of "[]" "CHR ''.'' # rest"] by simp
qed

section \<open>Filename derivation\<close>

text \<open>
  Claim C4. \<open>extractFilename\<close> returns the base name of its input with the directory
  and the extension stripped: \<open>photos/aaa.jpg\<close>, \<open>aaa.png\<close> and \<open>aaa\<close> all give
  \<open>aaa\<close>. In general, a key made of any directory, a separator, a stem and an
  extension (a dot followed by characters that are neither a dot nor a separator)
  gives the stem, with or without the directory; a name with no dot is returned as it
  is.
\<close>

theorem extractFilename_strips_directory_and_extension:
  "extractFilename_metadata ''photos/aaa.jpg'' = ''aaa''
   \<and> extractFilename_metadata ''aaa.png'' = ''aaa''
   \<and> extractFilename_metadata ''aaa'' = ''aaa''
   \<and> (CHR ''/'' \<notin> set stem \<and> CHR ''/'' \<notin> set ext \<and> CHR ''.'' \<notin> set ext \<longrightarrow>
        extractFilename_metadata (dir @ ''/'' @ stem @ ''.'' @ ext) = stem
        \<and> extractFilename_metadata (stem @ ''.'' @ ext) = stem)
   \<and> (name \<noteq> [] \<and> CHR ''/'' \<notin> set name \<and> CHR ''.'' \<notin> set name \<longrightarrow>
        extractFilename_metadata (dir @ ''/'' @ name) = name
        \<and> extractFilename_metadata name = name)"
proof -
  have ex1: "extractFilename_metadata ''photos/aaa.jpg'' = ''aaa''"
    by (simp add: extractFilename_metadata_def Base_def Ext_def TrimSuffix_def HasSuffix_def
        IsPathSeparator_def)
  have ex2: "extractFilename_metadata ''aaa.png'' = ''aaa''"
    by (simp add: extractFilename_metadata_def Base_def Ext_def TrimSuffix_def HasSuffix_def
        IsPathSeparator_def)
  have ex3: "extractFilename_metadata ''aaa'' = ''aaa''"
    by (simp add: extractFilename_metadata_def Base_def Ext_def TrimSuffix_def HasSuffix_def
        IsPathSeparator_def)
  have with_ext: "extractFilename_metadata (dir @ ''/'' @ stem @ ''.'' @ ext) = stem
      \<and> extractFilename_metadata (stem @ ''.'' @ ext) = stem"
    if h: "CHR ''/'' \<notin> set stem \<and> CHR ''/'' \<notin> set ext \<and> CHR ''.'' \<notin> set ext"
  proof -
    let ?base = "stem @ CHR ''.'' # ext"
    have ne: "?base \<noteq> []" by simp
    have ns: "CHR ''/'' \<notin> set ?base" using h by simp
    have b1: "Base (dir @ CHR ''/'' # ?base) = ?base" by (rule Base_dir [OF ne ns])
    have b2: "Base ?base = ?base" by (rule Base_plain [OF ne ns])
    have t: "TrimSuffix ?base (Ext ?base) = stem" using h by (simp add: strip_extension)
    show ?thesis using b1 b2 t by (simp add: extractFilename_metadata_def)
  qed
  have without_ext: "extractFilename_metadata (dir @ ''/'' @ name) = name
      \<and> extractFilename_metadata name = name"
    if h: "name \<noteq> [] \<and> CHR ''/'' \<notin> set name \<and> CHR ''.'' \<notin> set name"
  proof -
    have b1: "Base (dir @ CHR ''/'' # name) = name" using h by (simp add: Base_dir)
    have b2: "Base name = name" using h by (simp add: Base_plain)
    have t: "TrimSuffix name (Ext name) = name" using h by (simp add: strip_no_extension)
    show ?thesis using b1 b2 t by (simp add: extractFilename_metadata_def)
  qed
  show ?thesis using ex1 ex2 ex3 with_ext without_ext by blast
qed

theorem extractFilename_strips_directory_and_extension_witness:
  "extractFilename_metadata (''uploads/2024'' @ ''/'' @ ''holiday.final'' @ ''.'' @ ''jpeg'') = ''holiday.final''
   \<and> extractFilename_metadata (''uploads/2024'' @ ''/'' @ ''README'') = ''README''"
  using extractFilename_strips_directory_and_extension
    [of "''holiday.final''" "''jpeg''" "''uploads/2024''" "''README''"]
  by simp

text \<open>
  Claim C9. The copies of \<open>extractFilename\<close> in the Metadata, the Converter and the
  Resizer Worker are the same function: they return the same name for every input.
\<close>

theorem extractFilename_copies_agree:
  "extractFilename_metadata = extractFilename_converter
   \<and> extractFilename_converter = extractFilename_resizer
   \<and> (\<forall>input. extractFilename_metadata input = extractFilename_resizer input)"
  by (simp add: fun_eq_iff extractFilename_metadata_def extractFilename_converter_def
      extractFilename_resizer_def)

text \<open>
  Claim C10. Only the last extension is stripped: \<open>aaa.tar.gz\<close> gives \<open>aaa.tar\<close>,
  and so does every name whose last dot is followed by characters that are neither a
  dot nor a separator. A key whose base name starts with a dot and has no other dot
  (\<open>.config\<close>) gives the empty name, so every such key is converted to the one path
  \<open>converted/.jpg\<close>.
\<close>

theorem extractFilename_strips_last_extension_only:
  "extractFilename_metadata ''aaa.tar.gz'' = ''aaa.tar''
   \<and> (CHR ''/'' \<notin> set stem \<and> CHR ''/'' \<notin> set ext \<and> CHR ''.'' \<notin> set ext \<longrightarrow>
        extractFilename_metadata (stem @ ''.'' @ ext) = stem)
   \<and> extractFilename_metadata ''.config'' = []
   \<and> (Base key = CHR ''.'' # rest \<and> CHR ''.'' \<notin> set rest \<longrightarrow>
        extractFilename_metadata key = []
        \<and> extractFilename_converter key = []
        \<and> ConvertedFolder @ extractFilename_converter key @ ''.jpg'' = ''converted/.jpg'')"
proof -
  have ex1: "extractFilename_metadata ''aaa.tar.gz'' = ''aaa.tar''"
    by (simp add: extractFilename_metadata_def Base_def Ext_def TrimSuffix_def HasSuffix_def
        IsPathSeparator_def)
  have ex2: "extractFilename_metadata ''.config'' = []"
    by (simp add: extractFilename_metadata_def Base_def Ext_def TrimSuffix_def HasSuffix_def
        IsPathSeparator_def)
  have last_only: "extractFilename_metadata (stem @ ''.'' @ ext) = stem"
    if h: "CHR ''/'' \<notin> set stem \<and> CHR ''/'' \<notin> set ext \<and> CHR ''.'' \<notin> set ext"
  proof -
    let ?base = "stem @ CHR ''.'' # ext"
    have "Base ?base = ?base" using h by (intro Base_plain) simp_all
    moreover have "TrimSuffix ?base (Ext ?base) = stem" using h by (simp add: strip_extension)
    ultimately show ?thesis by (simp add: extractFilename_metadata_def)
  qed
  have hidden: "extractFilename_metadata key = []
      \<and> extractFilename_converter key = []
      \<and> ConvertedFolder @ extractFilename_converter key @ ''.jpg'' = ''converted/.jpg''"
    if h: "Base key = CHR ''.'' # rest \<and> CHR ''.'' \<notin> set rest"
  proof -
    have "TrimSuffix (Base key) (Ext (Base key)) = []"
      using h hidden_name_has_no_stem by blast
    then show ?thesis
      by (simp add: extractFilename_metadata_def extractFilename_converter_def ConvertedFolder_def)
  qed
  show ?thesis using ex1 ex2 last_only hidden by blast
qed

theorem extractFilename_strips_last_extension_only_witness:
  "extractFilename_metadata (''backup.2024.tar'' @ ''.'' @ ''gz'') = ''backup.2024.tar''
   \<and> Base ''home/user/.bashrc'' = CHR ''.'' # ''bashrc''
   \<and> extractFilename_metadata ''home/user/.bashrc'' = []
   \<and> ConvertedFolder @ extractFilename_converter ''home/user/.bashrc'' @ ''.jpg'' = ''converted/.jpg''"
proof -
  have b: "Base ''home/user/.bashrc'' = CHR ''.'' # ''bashrc''"
    by (simp add: Base_def IsPathSeparator_def)
  show ?thesis
    using b extractFilename_strips_last_extension_only
      [of "''backup.2024.tar''" "''gz''" "''home/user/.bashrc''" "''bashrc''"]
    by (simp add: ConvertedFolder_def)
qed

section \<open>Loops over a batch\<close>




section \<open>Upload Notifier: one message per record\<close>

lemma notify_record_marshal_fails:
  assumes "json_Marshal env (payload_of r) = Inl e"
  shows "notify_record env r w = (Inl e, w)"
  using assms by (simp add: notify_record_def payload_of_def bind_io_def lift_io_def)

lemma notify_record_publish_fails:
  assumes "json_Marshal env (payload_of r) = Inr m" and "fault env (clock w) = Some e"
  shows "notify_record env r w = (Inl e, tick w)"
  using assms
  by (simp add: notify_record_def payload_of_def bind_io_def lift_io_def sns_Publish_def call_def)

lemma notify_record_published:
  assumes "json_Marshal env (payload_of r) = Inr m" and "fault env (clock w) = None"
  shows "\<exists>res. notify_record env r w =
           (res, (tick w)\<lparr>published := published w @ [(newImageUploadedTopicArn, m)]\<rparr>)"
  using assms
  by (simp add: notify_record_def payload_of_def bind_io_def lift_io_def sns_Publish_def call_def
      deref_def return_io_def tick_def split: option.splits)

lemma notify_record_cases:
  obtains (marshal) e where "json_Marshal env (payload_of r) = Inl e" "notify_record env r w = (Inl e, w)"
  | (publish) m e where "json_Marshal env (payload_of r) = Inr m" "fault env (clock w) = Some e"
      "notify_record env r w = (Inl e, tick w)"
  | (sent) m res where "json_Marshal env (payload_of r) = Inr m" "fault env (clock w) = None"
      "notify_record env r w = (res, (tick w)\<lparr>published := published w @ [(newImageUploadedTopicArn, m)]\<rparr>)"
proof (cases "json_Marshal env (payload_of r)")
  case (Inl e)
  then show ?thesis using marshal notify_record_marshal_fails by blast
next
  case (Inr m)
  show ?thesis
  proof (cases "fault env (clock w)")
    case None
    then show ?thesis using Inr sent notify_record_published by blast
  next
    case (Some e)
    then show ?thesis using Inr publish notify_record_publish_fails by blast
  qed
qed

lemma notify_all_success:
  assumes "for_each (notify_record env) rs w = (Inr u, w')"
  shows "\<exists>ms. map (\<lambda>r. json_Marshal env (payload_of r)) rs = map Inr ms
           \<and> published w' = published w @ map (Pair newImageUploadedTopicArn) ms
           \<and> clock w' = clock w + length rs"
  using assms
proof (induction rs arbitrary: w)
  case Nil
  then show ?case by simp
next
  case (Cons r rs)
  show ?case
  proof (cases rule: notify_record_cases [of env r w])
    case (marshal e)
    then show ?thesis using Cons.prems by simp
  next
    case (publish m e)
    then show ?thesis using Cons.prems by simp
  next
    case (sent m res)
    let ?w1 = "(tick w)\<lparr>published := published w @ [(newImageUploadedTopicArn, m)]\<rparr>"
    from sent Cons.prems have rest: "for_each (notify_record env) rs ?w1 = (Inr u, w')"
      by (cases res) auto
    from Cons.IH [OF rest] obtain ms where
      ms: "map (\<lambda>r. json_Marshal env (payload_of r)) rs = map Inr ms"
        "published w' = published ?w1 @ map (Pair newImageUploadedTopicArn) ms"
        "clock w' = clock ?w1 + length rs"
      by blast
    have "map (\<lambda>r. json_Marshal env (payload_of r)) (r # rs) = map Inr (m # ms)"
      using sent(1) ms(1) by simp
    moreover have "published w' = published w @ map (Pair newImageUploadedTopicArn) (m # ms)"
      using ms(2) by simp
    moreover have "clock w' = clock w + length (r # rs)"
      using ms(3) by (simp add: tick_def)
    ultimately show ?thesis by blast
  qed
qed

lemma notify_all_prefix:
  assumes "for_each (notify_record env) rs w = (res, w')"
  shows "\<exists>n ms. n \<le> length rs
           \<and> take n (map (\<lambda>r. json_Marshal env (payload_of r)) rs) = map Inr ms
           \<and> published w' = published w @ map (Pair newImageUploadedTopicArn) ms"
  using assms
proof (induction rs arbitrary: w)
  case Nil
  then show ?case by simp
next
  case (Cons r rs)
  show ?case
  proof (cases rule: notify_record_cases [of env r w])
    case (marshal e)
    then have "published w' = published w" using Cons.prems by simp
    then show ?thesis by (intro exI [of _ 0] exI [of _ "[]"]) simp
  next
    case (publish m e)
    then have "published w' = published w" using Cons.prems by (auto simp: tick_def)
    then show ?thesis by (intro exI [of _ 0] exI [of _ "[]"]) simp
  next
    case (sent m r1)
    let ?w1 = "(tick w)\<lparr>published := published w @ [(newImageUploadedTopicArn, m)]\<rparr>"
    show ?thesis
    proof (cases r1)
      case (Inl e)
      then have "published w' = published w @ map (Pair newImageUploadedTopicArn) [m]"
        using sent Cons.prems by auto
      moreover have "take 1 (map (\<lambda>r. json_Marshal env (payload_of r)) (r # rs)) = map Inr [m]"
        using sent(1) by simp
      ultimately show ?thesis by (intro exI [of _ 1] exI [of _ "[m]"]) simp
    next
      case (Inr u)
      then have rest: "for_each (notify_record env) rs ?w1 = (res, w')"
        using sent Cons.prems by auto
      from Cons.IH [OF rest] obtain n ms where
        ms: "n \<le> length rs"
          "take n (map (\<lambda>r. json_Marshal env (payload_of r)) rs) = map Inr ms"
          "published w' = published ?w1 @ map (Pair newImageUploadedTopicArn) ms"
        by blast
      have "take (Suc n) (map (\<lambda>r. json_Marshal env (payload_of r)) (r # rs)) = map Inr (m # ms)"
        using sent(1) ms(2) by simp
      moreover have "published w' = published w @ map (Pair newImageUploadedTopicArn) (m # ms)"
        using ms(3) by simp
      moreover have "Suc n \<le> length (r # rs)" using ms(1) by simp
      ultimately show ?thesis by blast
    qed
  qed
qed

lemma notify_all_fault:
  assumes "i < length rs" and "fault env (clock w + i) \<noteq> None"
  shows "\<exists>e w'. for_each (notify_record env) rs w = (Inl e, w')"
  using assms
proof (induction rs arbitrary: w i)
  case Nil
  then show ?case by simp
next
  case (Cons r rs)
  show ?case
  proof (cases rule: notify_record_cases [of env r w])
    case (marshal e)
    then show ?thesis by simp
  next
    case (publish m e)
    then show ?thesis by simp
  next
    case (sent m r1)
    let ?w1 = "(tick w)\<lparr>published := published w @ [(newImageUploadedTopicArn, m)]\<rparr>"
    show ?thesis
    proof (cases r1)
      case (Inl e)
      then show ?thesis using sent by simp
    next
      case (Inr u)
      from sent(2) Cons.prems(2) have "i \<noteq> 0" by (cases i) auto
      then obtain j where j: "i = Suc j" by (cases i) auto
      have "j < length rs" using Cons.prems(1) j by simp
      moreover have "fault env (clock ?w1 + j) \<noteq> None"
        using Cons.prems(2) j by (simp add: tick_def)
      ultimately obtain e w' where "for_each (notify_record env) rs ?w1 = (Inl e, w')"
        using Cons.IH by blast
      then show ?thesis using sent Inr by simp
    qed
  qed
qed

text \<open>
  Claim C8. For every record of its event the notifier publishes one message to the
  fanout topic, the JSON of the record's bucket and key, in the order of the records:
  when the handler succeeds, the messages published are exactly those of all records,
  once each; in every run they are those of a leading part of the records, so none is
  skipped before the handler stops and none is published twice. The publish of record
  \<open>i\<close> is the \<open>i\<close>-th call of the run; if any of these calls fails, the handler returns
  an error.
\<close>

theorem notifier_publishes_each_record_once:
  "(fst (handler_notifier env s3Event w) = None \<longrightarrow>
      (\<exists>ms. map (\<lambda>r. json_Marshal env (payload_of r)) (S3Records s3Event) = map Inr ms
         \<and> published (snd (handler_notifier env s3Event w))
             = published w @ map (Pair newImageUploadedTopicArn) ms))
   \<and> (\<exists>n ms. n \<le> length (S3Records s3Event)
         \<and> take n (map (\<lambda>r. json_Marshal env (payload_of r)) (S3Records s3Event)) = map Inr ms
         \<and> published (snd (handler_notifier env s3Event w))
             = published w @ map (Pair newImageUploadedTopicArn) ms)
   \<and> (i < length (S3Records s3Event) \<and> fault env (clock w + i) \<noteq> None \<longrightarrow>
        fst (handler_notifier env s3Event w) \<noteq> None)"
proof (cases "LoadDefaultConfig env")
  case (Some err)
  then have r: "handler_notifier env s3Event w = (Some err, w)"
    by (simp add: handler_notifier_def)
  have "\<exists>n ms. n \<le> length (S3Records s3Event)
         \<and> take n (map (\<lambda>r. json_Marshal env (payload_of r)) (S3Records s3Event)) = map Inr ms
         \<and> published w = published w @ map (Pair newImageUploadedTopicArn) ms"
    by (intro exI [of _ 0] exI [of _ "[]"]) simp
  then show ?thesis using r by simp
next
  case None
  obtain res w' where run: "for_each (notify_record env) (S3Records s3Event) w = (res, w')"
    by (cases "for_each (notify_record env) (S3Records s3Event) w")
  have r: "handler_notifier env s3Event w = (case res of Inl e \<Rightarrow> Some e | Inr u \<Rightarrow> None, w')"
    using None run by (simp add: handler_notifier_def split: sum.splits)
  have p1: "\<exists>ms. map (\<lambda>r. json_Marshal env (payload_of r)) (S3Records s3Event) = map Inr ms
         \<and> published w' = published w @ map (Pair newImageUploadedTopicArn) ms"
    if "fst (handler_notifier env s3Event w) = None"
  proof -
    from that r obtain u where "res = Inr u" by (cases res) auto
    with run notify_all_success [of env "S3Records s3Event" w u w'] show ?thesis by blast
  qed
  have p2: "\<exists>n ms. n \<le> length (S3Records s3Event)
         \<and> take n (map (\<lambda>r. json_Marshal env (payload_of r)) (S3Records s3Event)) = map Inr ms
         \<and> published w' = published w @ map (Pair newImageUploadedTopicArn) ms"
    using run by (rule notify_all_prefix)
  have p3: "fst (handler_notifier env s3Event w) \<noteq> None"
    if "i < length (S3Records s3Event) \<and> fault env (clock w + i) \<noteq> None"
  proof -
    from that notify_all_fault [of i "S3Records s3Event" env w] run
    obtain e where "res = Inl e" by auto
    then show ?thesis using r by simp
  qed
  show ?thesis using p1 p2 p3 r by simp
qed

theorem notifier_publishes_each_record_once_witness:
  \<open>fst (handler_notifier example_env example_notification example_world) = None
   \<and> published (snd (handler_notifier example_env example_notification example_world))
       = [(newImageUploadedTopicArn, ''{"bucket":"pixels","key":"photos/aaa.png"}''),
          (newImageUploadedTopicArn, ''{"bucket":"pixels","key":"photos/bbb.jpg"}'')]
   \<and> 1 < length (S3Records example_notification)
   \<and> fault publish_fails_env (clock example_world + 1) \<noteq> None
   \<and> fst (handler_notifier publish_fails_env example_notification example_world) \<noteq> None\<close>
proof -
  have ok: "fst (handler_notifier example_env example_notification example_world) = None"
    by (simp add: handler_notifier_def notify_record_def example_notification_def fixture_defs
        io_defs)
  have late: "1 < length (S3Records example_notification)
      \<and> fault publish_fails_env (clock example_world + 1) \<noteq> None"
    by (simp add: example_notification_def publish_fails_env_def fixture_defs)
  from ok notifier_publishes_each_record_once [of example_env example_notification example_world]
  obtain ms where ms:
    "map (\<lambda>r. json_Marshal example_env (payload_of r)) (S3Records example_notification) = map Inr ms"
    "published (snd (handler_notifier example_env example_notification example_world))
       = published example_world @ map (Pair newImageUploadedTopicArn) ms"
    by blast
  from ms(1) have \<open>ms = [''{"bucket":"pixels","key":"photos/aaa.png"}'',
      ''{"bucket":"pixels","key":"photos/bbb.jpg"}'']\<close>
    by (auto simp: example_notification_def fixture_defs payload_of_def)
  with ms(2) have sent: \<open>published (snd (handler_notifier example_env example_notification example_world))
       = [(newImageUploadedTopicArn, ''{"bucket":"pixels","key":"photos/aaa.png"}''),
          (newImageUploadedTopicArn, ''{"bucket":"pixels","key":"photos/bbb.jpg"}'')]\<close>
    by (simp add: example_world_def)
  from late notifier_publishes_each_record_once
    [of publish_fails_env example_notification example_world 1]
  have "fst (handler_notifier publish_fails_env example_notification example_world) \<noteq> None"
    by blast
  with ok sent late show ?thesis by blast
qed

section \<open>Steps of the workers\<close>

lemma same_writes_refl: "same_writes w w"
  by (simp add: same_writes_def)

lemma same_writes_tick: "same_writes w (tick w)"
  by (simp add: same_writes_def tick_def)

lemma same_writes_trans: "same_writes w w1 \<Longrightarrow> same_writes w1 w2 \<Longrightarrow> same_writes w w2"
  by (simp add: same_writes_def)


lemma bind_io_cases:
  assumes "bind_io m f w = (res, w')"
  obtains (stop) e where "m w = (Inl e, w')" and "res = Inl e"
  | (go) x w1 where "m w = (Inr x, w1)" and "f x w1 = (res, w')"
  using assms by (auto simp: bind_io_def split: prod.splits sum.splits)

lemma lift_io_eq: "lift_io r w = (res, w') \<longleftrightarrow> res = r \<and> w' = w"
  by (auto simp: lift_io_def)

lemma deref_eq: "deref p w = (res, w') \<Longrightarrow> w' = w \<and> (\<forall>x. res = Inr x \<longrightarrow> p = Some x)"
  by (auto simp: deref_def split: option.splits)

lemma call_pure:
  assumes "call env (\<lambda>w. (r, w)) w = (res, w')"
  shows "w' = tick w \<and> (\<forall>x. res = Inr x \<longrightarrow> r = Inr x \<and> fault env (clock w) = None)"
  using assms by (auto simp: call_def split: option.splits)

lemma getObject_result:
  assumes "getObject env bucket key w = (res, w')"
  shows "w' = tick w \<and> (\<forall>obj. res = Inr obj \<longrightarrow>
           objects w (bucket, key) = Some obj \<and> fault env (clock w) = None)"
  using assms
  by (auto simp: getObject_def s3_GetObject_def call_def tick_def split: option.splits)

lemma image_Decode_stream_result:
  assumes "image_Decode_stream env stream w = (res, w')"
  shows "w' = tick w \<and> (\<forall>x. res = Inr x \<longrightarrow>
           image_Decode env stream = Inr x \<and> fault env (clock w) = None)"
  using assms unfolding image_Decode_stream_def by (rule call_pure)

lemma putObject_result:
  assumes "putObject env bucket key body w = (res, w')"
  shows "(\<exists>e. res = Inl e \<and> fault env (clock w) = Some e \<and> w' = tick w)
       \<or> (res = Inr () \<and> fault env (clock w) = None
          \<and> w' = (tick w)\<lparr>objects := (objects w)((bucket, key) \<mapsto> stored body),
                            uploads := uploads w @ [(bucket, key, body)]\<rparr>)"
  using assms
  by (auto simp: putObject_def s3_PutObject_def call_def tick_def split: option.splits)

subsection \<open>Fetching and decoding, as the converter and the resizer do\<close>

lemma fetch_decode_cases:
  assumes run: "bind_io (lift_io (json_Unmarshal env (Body r))) (\<lambda>body.
     bind_io (getObject env (Bucket body) (Key body)) (\<lambda>objOutput.
     bind_io (deref (ContentType objOutput)) (\<lambda>contentType.
     bind_io (deref (ContentLength objOutput)) (\<lambda>contentLength.
     bind_io (image_Decode_stream env (ObjBody objOutput)) (\<lambda>(img, format).
     k body img))))) w = (res, w')"
  obtains (failed) e where "res = Inl e" and "same_writes w w'"
  | (decoded) body obj img format where
      "json_Unmarshal env (Body r) = Inr body"
      "objects w (Bucket body, Key body) = Some obj"
      "image_Decode env (ObjBody obj) = Inr (img, format)"
      "fault env (clock w) = None"
      "fault env (Suc (clock w)) = None"
      "k body img (tick (tick w)) = (res, w')"
proof -
  from run show thesis
  proof (cases rule: bind_io_cases)
    case (stop e)
    then show thesis using failed [of e] by (simp add: lift_io_eq same_writes_refl)
  next
    case (go body w1)
    then have body: "json_Unmarshal env (Body r) = Inr body" and w1: "w1 = w"
      by (simp_all add: lift_io_eq)
    from go(2) show thesis
    proof (cases rule: bind_io_cases)
      case (stop e)
      then have "w' = tick w" using getObject_result w1 by blast
      then show thesis using failed [of e] stop(2) by (simp add: same_writes_tick)
    next
      case (go obj w2)
      then have obj: "objects w (Bucket body, Key body) = Some obj"
        and f0: "fault env (clock w) = None" and w2: "w2 = tick w"
        using getObject_result [OF go(1)] w1 by simp_all
      from go(2) show thesis
      proof (cases rule: bind_io_cases)
        case (stop e)
        then have "w' = tick w" using deref_eq w2 by blast
        then show thesis using failed [of e] stop(2) by (simp add: same_writes_tick)
      next
        case (go contentType w3)
        then have w3: "w3 = tick w" using deref_eq w2 by blast
        from go(2) show thesis
        proof (cases rule: bind_io_cases)
          case (stop e)
          then have "w' = tick w" using deref_eq w3 by blast
          then show thesis using failed [of e] stop(2) by (simp add: same_writes_tick)
        next
          case (go contentLength w4)
          then have w4: "w4 = tick w" using deref_eq w3 by blast
          from go(2) show thesis
          proof (cases rule: bind_io_cases)
            case (stop e)
            then have "w' = tick (tick w)" using image_Decode_stream_result w4 by blast
            then show thesis
              using failed [of e] stop(2) same_writes_trans [OF same_writes_tick same_writes_tick]
              by simp
          next
            case (go decoded_pair w5)
            obtain img format where pair: "decoded_pair = (img, format)"
              by (cases decoded_pair)
            from image_Decode_stream_result [OF go(1)] w4
            have dec: "image_Decode env (ObjBody obj) = Inr (img, format)"
              and f1: "fault env (Suc (clock w)) = None" and w5: "w5 = tick (tick w)"
              using pair by (simp_all add: tick_def)
            from go(2) pair w5 have "k body img (tick (tick w)) = (res, w')" by simp
            then show thesis using decoded [OF body obj dec f0 f1] by simp
          qed
        qed
      qed
    qed
  qed
qed


subsection \<open>One message of the converter\<close>

lemma process_converter_result:
  assumes "process_converter env r w = (res, w')"
  shows "(\<exists>e. res = Inl e \<and> same_writes w w')
       \<or> (\<exists>body obj img format jpegImg.
            res = Inr ()
            \<and> json_Unmarshal env (Body r) = Inr body
            \<and> objects w (Bucket body, Key body) = Some obj
            \<and> image_Decode env (ObjBody obj) = Inr (img, format)
            \<and> jpeg_Encode env img 100 = Inr jpegImg
            \<and> uploads w' = uploads w
                 @ [(Bucket body, ''converted/'' @ extractFilename_converter (Key body) @ ''.jpg'',
                     jpegImg)]
            \<and> objects w' = (objects w)
                 ((Bucket body, ''converted/'' @ extractFilename_converter (Key body) @ ''.jpg'')
                    \<mapsto> stored jpegImg))"
  using assms unfolding process_converter_def
proof (cases rule: fetch_decode_cases)
  case (failed e)
  then show ?thesis by simp
next
  case (decoded body obj img format)
  let ?w2 = "tick (tick w)"
  let ?path = "ConvertedFolder @ extractFilename_converter (Key body) @ ''.jpg''"
  have sw: "same_writes w ?w2"
    using same_writes_trans [OF same_writes_tick same_writes_tick] .
  from decoded(6) show ?thesis
  proof (cases rule: bind_io_cases)
    case (stop e)
    then have "w' = ?w2" by (simp add: lift_io_eq)
    then show ?thesis using stop(2) sw by simp
  next
    case (go jpegImg w3)
    then have enc: "jpeg_Encode env img 100 = Inr jpegImg" and w3: "w3 = ?w2"
      by (simp_all add: lift_io_eq convertToJPEG_def)
    from putObject_result [OF go(2)] show ?thesis
    proof
      assume "\<exists>e. res = Inl e \<and> fault env (clock w3) = Some e \<and> w' = tick w3"
      then obtain e where "res = Inl e" "w' = tick w3" by blast
      then show ?thesis using w3 same_writes_trans [OF sw same_writes_tick] by simp
    next
      assume ok: "res = Inr () \<and> fault env (clock w3) = None
          \<and> w' = (tick w3)\<lparr>objects := (objects w3)((Bucket body, ?path) \<mapsto> stored jpegImg),
                            uploads := uploads w3 @ [(Bucket body, ?path, jpegImg)]\<rparr>"
      then have "uploads w' = uploads w @ [(Bucket body, ?path, jpegImg)]"
        and "objects w' = (objects w)((Bucket body, ?path) \<mapsto> stored jpegImg)"
        using w3 by (simp_all add: tick_def)
      then show ?thesis using ok decoded(1-3) enc by (simp add: ConvertedFolder_def)
    qed
  qed
qed


subsection \<open>Steps that only read\<close>



lemma reads_only_lift: "reads_only (lift_io r)"
  by (simp add: reads_only_def lift_io_def same_writes_refl)


















section \<open>Converter Worker: one blob per message\<close>

lemma convert_all_success:
  assumes "for_each (process_converter env) rs w = (Inr u, w')"
  shows "\<exists>bodies blobs.
           map (\<lambda>r. json_Unmarshal env (Body r)) rs = map Inr bodies
           \<and> uploads w' = uploads w @ blobs
           \<and> map (\<lambda>(bucket, key, content). (bucket, key)) blobs
               = map (\<lambda>body. (Bucket body,
                   ''converted/'' @ extractFilename_converter (Key body) @ ''.jpg'')) bodies"
  using assms
proof (induction rs arbitrary: w)
  case Nil
  then show ?case by simp
next
  case (Cons r rs)
  obtain r1 w1 where step: "process_converter env r w = (r1, w1)"
    by (cases "process_converter env r w")
  with Cons.prems have ok: "r1 = Inr ()"
    and rest: "for_each (process_converter env) rs w1 = (Inr u, w')"
    by (auto split: sum.splits)
  from process_converter_result [OF step] ok obtain body jpegImg where
    b: "json_Unmarshal env (Body r) = Inr body"
      "uploads w1 = uploads w
         @ [(Bucket body, ''converted/'' @ extractFilename_converter (Key body) @ ''.jpg'', jpegImg)]"
    by auto
  from Cons.IH [OF rest] obtain bodies blobs where
    t: "map (\<lambda>r. json_Unmarshal env (Body r)) rs = map Inr bodies"
      "uploads w' = uploads w1 @ blobs"
      "map (\<lambda>(bucket, key, content). (bucket, key)) blobs
         = map (\<lambda>body. (Bucket body,
             ''converted/'' @ extractFilename_converter (Key body) @ ''.jpg'')) bodies"
    by blast
  let ?blob = "(Bucket body, ''converted/'' @ extractFilename_converter (Key body) @ ''.jpg'', jpegImg)"
  have "map (\<lambda>r. json_Unmarshal env (Body r)) (r # rs) = map Inr (body # bodies)"
    using b(1) t(1) by simp
  moreover have "uploads w' = uploads w @ (?blob # blobs)"
    using b(2) t(2) by simp
  moreover have "map (\<lambda>(bucket, key, content). (bucket, key)) (?blob # blobs)
         = map (\<lambda>body. (Bucket body,
             ''converted/'' @ extractFilename_converter (Key body) @ ''.jpg'')) (body # bodies)"
    using t(3) by simp
  ultimately show ?case by blast
qed

text \<open>
  Claim C7. A message the converter processes successfully has one upload, at
  \<open>converted/\<close> followed by the name derived from the message's key and \<open>.jpg\<close>;
  its content is the decoded source encoded as JPEG at quality 100, and after it the
  store holds that content at the path whatever was there before. A batch that
  succeeds has one such upload for each of its messages, in their order.
\<close>

theorem converter_uploads_one_jpeg_per_message:
  "(process_converter env msg w = (Inr u, w') \<longrightarrow>
      (\<exists>body obj img format jpegImg.
         json_Unmarshal env (Body msg) = Inr body
         \<and> objects w (Bucket body, Key body) = Some obj
         \<and> image_Decode env (ObjBody obj) = Inr (img, format)
         \<and> jpeg_Encode env img 100 = Inr jpegImg
         \<and> uploads w' = uploads w
              @ [(Bucket body, ''converted/'' @ extractFilename_converter (Key body) @ ''.jpg'',
                  jpegImg)]
         \<and> objects w' = (objects w)
              ((Bucket body, ''converted/'' @ extractFilename_converter (Key body) @ ''.jpg'')
                 \<mapsto> stored jpegImg)))
   \<and> (handler_converter env event w = (None, w'') \<longrightarrow>
      (\<exists>bodies blobs.
         map (\<lambda>r. json_Unmarshal env (Body r)) (Records event) = map Inr bodies
         \<and> uploads w'' = uploads w @ blobs
         \<and> length blobs = length (Records event)
         \<and> map (\<lambda>(bucket, key, content). (bucket, key)) blobs
             = map (\<lambda>body. (Bucket body,
                 ''converted/'' @ extractFilename_converter (Key body) @ ''.jpg'')) bodies))"
proof -
  have one: "\<exists>body obj img format jpegImg.
         json_Unmarshal env (Body msg) = Inr body
         \<and> objects w (Bucket body, Key body) = Some obj
         \<and> image_Decode env (ObjBody obj) = Inr (img, format)
         \<and> jpeg_Encode env img 100 = Inr jpegImg
         \<and> uploads w' = uploads w
              @ [(Bucket body, ''converted/'' @ extractFilename_converter (Key body) @ ''.jpg'',
                  jpegImg)]
         \<and> objects w' = (objects w)
              ((Bucket body, ''converted/'' @ extractFilename_converter (Key body) @ ''.jpg'')
                 \<mapsto> stored jpegImg)"
    if "process_converter env msg w = (Inr u, w')"
    using process_converter_result [OF that] by blast
  have batch: "\<exists>bodies blobs.
         map (\<lambda>r. json_Unmarshal env (Body r)) (Records event) = map Inr bodies
         \<and> uploads w'' = uploads w @ blobs
         \<and> length blobs = length (Records event)
         \<and> map (\<lambda>(bucket, key, content). (bucket, key)) blobs
             = map (\<lambda>body. (Bucket body,
                 ''converted/'' @ extractFilename_converter (Key body) @ ''.jpg'')) bodies"
    if h: "handler_converter env event w = (None, w'')"
  proof -
    from h have cfg: "LoadDefaultConfig env = None"
      by (cases "LoadDefaultConfig env") (simp_all add: handler_converter_def)
    obtain res wl where loop: "for_each (process_converter env) (Records event) w = (res, wl)"
      by (cases "for_each (process_converter env) (Records event) w")
    from h cfg loop obtain u' where "res = Inr u'" and "wl = w''"
      by (cases res) (simp_all add: handler_converter_def)
    with loop have "for_each (process_converter env) (Records event) w = (Inr u', w'')"
      by simp
    from convert_all_success [OF this] obtain bodies blobs where
      t: "map (\<lambda>r. json_Unmarshal env (Body r)) (Records event) = map Inr bodies"
        "uploads w'' = uploads w @ blobs"
        "map (\<lambda>(bucket, key, content). (bucket, key)) blobs
           = map (\<lambda>body. (Bucket body,
               ''converted/'' @ extractFilename_converter (Key body) @ ''.jpg'')) bodies"
      by (elim exE conjE)
    from t(1) have "length (map (\<lambda>r. json_Unmarshal env (Body r)) (Records event))
        = length (map (Inr :: messageBody \<Rightarrow> error + messageBody) bodies)"
      by simp
    then have l1: "length (Records event) = length bodies" by simp
    from t(3) have "length (map (\<lambda>(bucket, key, content). (bucket, key)) blobs)
        = length (map (\<lambda>body. (Bucket body,
               ''converted/'' @ extractFilename_converter (Key body) @ ''.jpg'')) bodies)"
      by simp
    then have l2: "length blobs = length bodies" by simp
    from l1 l2 have l3: "length blobs = length (Records event)" by simp
    show ?thesis
      by (rule exI [of _ bodies], rule exI [of _ blobs]) (simp only: t l3 simp_thms)
  qed
  show ?thesis by (intro conjI impI) (erule one, erule batch)
qed

theorem converter_uploads_one_jpeg_per_message_witness:
  "process_converter example_env good_message example_world
     = (Inr (), snd (process_converter example_env good_message example_world))
   \<and> uploads (snd (process_converter example_env good_message example_world))
       = [(''pixels'', ''converted/aaa.jpg'', [255, 216, 1])]
   \<and> handler_converter example_env \<lparr>Records = [good_message, good_message]\<rparr> example_world
       = (None, snd (handler_converter example_env
                       \<lparr>Records = [good_message, good_message]\<rparr> example_world))
   \<and> map (\<lambda>(bucket, key, content). (bucket, key))
        (uploads (snd (handler_converter example_env
                         \<lparr>Records = [good_message, good_message]\<rparr> example_world)))
       = [(''pixels'', ''converted/aaa.jpg''), (''pixels'', ''converted/aaa.jpg'')]"
proof -
  let ?w1 = "snd (process_converter example_env good_message example_world)"
  let ?event = "\<lparr>Records = [good_message, good_message]\<rparr>"
  let ?w2 = "snd (handler_converter example_env ?event example_world)"
  have name: "extractFilename_converter ''photos/aaa.png'' = ''aaa''"
    by (simp add: path_defs)
  have "fst (process_converter example_env good_message example_world) = Inr ()"
    by (simp add: process_converter_def convertToJPEG_def fixture_defs io_defs stored_def)
  then have one: "process_converter example_env good_message example_world = (Inr (), ?w1)"
    by (simp add: prod_eq_iff)
  have "fst (handler_converter example_env ?event example_world) = None"
    by (simp add: handler_converter_def process_converter_def convertToJPEG_def
        fixture_defs io_defs stored_def)
  then have two: "handler_converter example_env ?event example_world = (None, ?w2)"
    by (simp add: prod_eq_iff)
  note inst = converter_uploads_one_jpeg_per_message
    [where env = example_env and msg = good_message and w = example_world and u = "()"
       and w' = ?w1 and event = ?event and w'' = ?w2]
  from inst [THEN conjunct1, THEN mp, OF one] obtain body obj img format jpegImg where
    b: "json_Unmarshal example_env (Body good_message) = Inr body"
      "objects example_world (Bucket body, Key body) = Some obj"
      "image_Decode example_env (ObjBody obj) = Inr (img, format)"
      "jpeg_Encode example_env img 100 = Inr jpegImg"
      "uploads ?w1 = uploads example_world
         @ [(Bucket body, ''converted/'' @ extractFilename_converter (Key body) @ ''.jpg'', jpegImg)]"
    by (elim exE conjE)
  from b(1) have body: "body = \<lparr>Bucket = ''pixels'', Key = ''photos/aaa.png''\<rparr>"
    by (simp add: example_env_def good_message_def)
  from b(2) body have obj: "obj = stored png_bytes"
    by (simp add: example_world_def)
  from b(3) obj have img: "img = \<lparr>Dx = 50, Dy = 40, Pix = []\<rparr>"
    by (simp add: example_env_def stored_def)
  from b(4) img have jpg: "jpegImg = [255, 216, 1]"
    by (simp add: example_env_def)
  from b(5) body jpg name have up1: "uploads ?w1 = [(''pixels'', ''converted/aaa.jpg'', [255, 216, 1])]"
    by (simp add: example_world_def)
  from inst [THEN conjunct2, THEN mp, OF two] obtain bodies blobs where
    t: "map (\<lambda>r. json_Unmarshal example_env (Body r)) (Records ?event) = map Inr bodies"
      "uploads ?w2 = uploads example_world @ blobs"
      "map (\<lambda>(bucket, key, content). (bucket, key)) blobs
         = map (\<lambda>body. (Bucket body,
             ''converted/'' @ extractFilename_converter (Key body) @ ''.jpg'')) bodies"
    by (elim exE conjE)
  have "map (\<lambda>r. json_Unmarshal example_env (Body r)) (Records ?event)
      = map Inr [\<lparr>Bucket = ''pixels'', Key = ''photos/aaa.png''\<rparr>,
          \<lparr>Bucket = ''pixels'', Key = ''photos/aaa.png''\<rparr>]"
    by (simp add: example_env_def good_message_def)
  with t(1) have "map (Inr :: messageBody \<Rightarrow> error + messageBody) bodies
      = map Inr [\<lparr>Bucket = ''pixels'', Key = ''photos/aaa.png''\<rparr>,
          \<lparr>Bucket = ''pixels'', Key = ''photos/aaa.png''\<rparr>]"
    by simp
  then have "bodies = [\<lparr>Bucket = ''pixels'', Key = ''photos/aaa.png''\<rparr>,
      \<lparr>Bucket = ''pixels'', Key = ''photos/aaa.png''\<rparr>]"
    by (simp only: inj_map_eq_map [OF inj_Inr])
  with t(2,3) name have up2: "map (\<lambda>(bucket, key, content). (bucket, key)) (uploads ?w2)
       = [(''pixels'', ''converted/aaa.jpg''), (''pixels'', ''converted/aaa.jpg'')]"
    by (simp add: example_world_def)
  from one up1 two up2 show ?thesis by (intro conjI)
qed

section \<open>Failing messages and failing batches\<close>





subsection \<open>The example runs\<close>











section \<open>Resizer Worker: sizes and uploads\<close>

subsection \<open>Bounds of a resized picture\<close>

lemma Resize_bounds:
  assumes "0 < width" and "0 < Dx img" and "0 < Dy img"
  shows "Dx (Resize width 0 img interp) = width"
    and "Dy (Resize width 0 img interp)
           = nat \<lfloor>7 / 10 + real (Dy img) / (real (Dx img) / real width)\<rfloor>"
  using assms by (auto simp: Resize_def calcFactors_def Let_def)

lemma floor_shift_close:
  fixes x :: real
  assumes "0 \<le> x"
  shows "\<bar>real (nat \<lfloor>7 / 10 + x\<rfloor>) - x\<bar> < 1"
proof -
  have "0 \<le> \<lfloor>7 / 10 + x\<rfloor>" using assms by simp
  then have r: "real (nat \<lfloor>7 / 10 + x\<rfloor>) = of_int \<lfloor>7 / 10 + x\<rfloor>" by simp
  have "of_int \<lfloor>7 / 10 + x\<rfloor> \<le> 7 / 10 + x" by (rule of_int_floor_le)
  moreover have "7 / 10 + x < of_int \<lfloor>7 / 10 + x\<rfloor> + 1" by linarith
  ultimately show ?thesis using r by linarith
qed

text \<open>
  Claim C5, as amended. For each of the three resize tasks and every source picture
  with at least one pixel, the resized picture is as wide as the task's target width,
  also when the source is narrower than the target: the picture is then enlarged. Its
  height is the library's \<open>uint(0.7 + H / (W / w))\<close> for a source of \<open>W\<close> by \<open>H\<close>
  pixels and target width \<open>w\<close>, computed in the reals, which is less than one pixel
  away from the height \<open>H * w / W\<close> that keeps the aspect ratio.
\<close>

theorem resize_gives_target_width:
  assumes "task \<in> set resizeTasks" and "0 < Dx img" and "0 < Dy img"
  shows "Dx (Resize (Width task) 0 img interp) = Width task
    \<and> Dy (Resize (Width task) 0 img interp)
        = nat \<lfloor>7 / 10 + real (Dy img) / (real (Dx img) / real (Width task))\<rfloor>
    \<and> \<bar>real (Dy (Resize (Width task) 0 img interp))
         - real (Dy img) * real (Width task) / real (Dx img)\<bar> < 1"
proof -
  from assms(1) have pos: "0 < Width task"
    by (auto simp: resizeTasks_def)
  let ?x = "real (Dy img) / (real (Dx img) / real (Width task))"
  have x: "?x = real (Dy img) * real (Width task) / real (Dx img)" by simp
  have "0 \<le> ?x" by simp
  then have "\<bar>real (nat \<lfloor>7 / 10 + ?x\<rfloor>) - ?x\<bar> < 1" by (rule floor_shift_close)
  then show ?thesis
    using Resize_bounds [OF pos assms(2,3), of interp] x by simp
qed

theorem resize_gives_target_width_witness:
  "\<lparr>SizeName = ''thumbnail'', Width = 100\<rparr> \<in> set resizeTasks
   \<and> 0 < Dx small_image \<and> 0 < Dy small_image
   \<and> Dx (Resize 100 0 small_image (Lanczos3 example_env)) = 100
   \<and> Dy (Resize 100 0 small_image (Lanczos3 example_env)) = 80"
proof -
  have h: "\<lparr>SizeName = ''thumbnail'', Width = 100\<rparr> \<in> set resizeTasks"
      "0 < Dx small_image" "0 < Dy small_image"
    by (simp_all add: resizeTasks_def small_image_def)
  from resize_gives_target_width [OF h, of "Lanczos3 example_env"]
  have "Dx (Resize 100 0 small_image (Lanczos3 example_env)) = 100"
    and "Dy (Resize 100 0 small_image (Lanczos3 example_env))
        = nat \<lfloor>7 / 10 + real (Dy small_image) / (real (Dx small_image) / real (100::nat))\<rfloor>"
    by simp_all
  then show ?thesis using h by (simp add: small_image_def)
qed

text \<open>
  Claim C5 as stated says that a source no wider than the target keeps its width.
  The thumbnail of a source 50 pixels wide is 100 pixels wide.
\<close>

theorem resize_enlarges_narrow_source_counterexample:
  "\<lparr>SizeName = ''thumbnail'', Width = 100\<rparr> \<in> set resizeTasks
   \<and> Dx small_image \<le> 100
   \<and> Dx (Resize 100 0 small_image (Lanczos3 example_env)) \<noteq> Dx small_image"
  by (simp add: resizeTasks_def small_image_def Resize_def calcFactors_def)

subsection \<open>The uploads of one message\<close>

lemma resize_goroutine_uploads:
  assumes "convertToJPEG env (Resize (Width task) 0 img (Lanczos3 env)) = Inr jpegImg"
    and "fault env (clock w) = None"
  shows "resize_goroutine env None body img task w
      = (tick w)\<lparr>objects := (objects w)((Bucket body, resized_path body task) \<mapsto> stored jpegImg),
                  uploads := uploads w @ [(Bucket body, resized_path body task, jpegImg)]\<rparr>"
  using assms
  by (simp add: resize_goroutine_def resized_path_def putObject_def s3_PutObject_def call_def
      tick_def)

lemma run_tasks_all_uploaded:
  assumes "\<forall>task \<in> set tasks.
             convertToJPEG env (Resize (Width task) 0 img (Lanczos3 env)) = Inr (enc task)"
    and "\<forall>i < length tasks. fault env (clock w + i) = None"
  shows "uploads (fold (resize_goroutine env None body img) tasks w)
      = uploads w @ map (\<lambda>task. (Bucket body, resized_path body task, enc task)) tasks"
  using assms
proof (induction tasks arbitrary: w)
  case Nil
  then show ?case by simp
next
  case (Cons task tasks)
  let ?w1 = "(tick w)\<lparr>objects := (objects w)((Bucket body, resized_path body task)
                          \<mapsto> stored (enc task)),
                       uploads := uploads w @ [(Bucket body, resized_path body task, enc task)]\<rparr>"
  have enc: "convertToJPEG env (Resize (Width task) 0 img (Lanczos3 env)) = Inr (enc task)"
    using Cons.prems(1) by simp
  have f0: "fault env (clock w) = None"
    using Cons.prems(2) by (metis add.right_neutral length_greater_0_conv list.distinct(1))
  have step: "resize_goroutine env None body img task w = ?w1"
    using enc f0 by (rule resize_goroutine_uploads)
  have rest_enc: "\<forall>t \<in> set tasks.
      convertToJPEG env (Resize (Width t) 0 img (Lanczos3 env)) = Inr (enc t)"
    using Cons.prems(1) by simp
  have rest_fault: "\<forall>i < length tasks. fault env (clock ?w1 + i) = None"
  proof (intro allI impI)
    fix i assume "i < length tasks"
    then have "Suc i < length (task # tasks)" by simp
    then have "fault env (clock w + Suc i) = None" using Cons.prems(2) by blast
    then show "fault env (clock ?w1 + i) = None" by (simp add: tick_def)
  qed
  have "uploads (fold (resize_goroutine env None body img) tasks ?w1)
      = uploads ?w1 @ map (\<lambda>task. (Bucket body, resized_path body task, enc task)) tasks"
    using rest_enc rest_fault by (rule Cons.IH)
  then show ?case using step by simp
qed

lemma process_resizer_decoded:
  assumes "json_Unmarshal env (Body msg) = Inr body"
    and "objects w (Bucket body, Key body) = Some obj"
    and "ContentType obj \<noteq> None" and "ContentLength obj \<noteq> None"
    and "image_Decode env (ObjBody obj) = Inr (img, format)"
    and "fault env (clock w) = None" and "fault env (Suc (clock w)) = None"
  shows "process_resizer env msg w
      = (Inr (), fold (resize_goroutine env None body img)
                   (goroutine_order env (Suc (Suc (clock w))) resizeTasks) (tick (tick w)))"
  using assms
  by (auto simp: process_resizer_def wait_all_def bind_io_def lift_io_def getObject_def
      s3_GetObject_def call_def deref_def image_Decode_stream_def tick_def)

text \<open>
  Claim C6. When every step for a message succeeds (the body parses, the source is
  fetched and decoded, each of the three resized pictures is encoded and none of the
  five calls to the outside fails), the resizer uploads exactly three blobs, whatever
  the order in which the scheduler runs the tasks: at \<open>resized/\<close>, the name derived
  from the key, and \<open>/thumbnail.jpg\<close>, \<open>/medium.jpg\<close> and \<open>/large.jpg\<close>, holding the
  source resized to the widths 100, 500 and 1000 and encoded as JPEG at quality 100.
\<close>

theorem resizer_uploads_three_sizes:
  assumes "json_Unmarshal env (Body msg) = Inr body"
    and "objects w (Bucket body, Key body) = Some obj"
    and "ContentType obj \<noteq> None" and "ContentLength obj \<noteq> None"
    and "image_Decode env (ObjBody obj) = Inr (img, format)"
    and "jpeg_Encode env (Resize 100 0 img (Lanczos3 env)) 100 = Inr thumbnail"
    and "jpeg_Encode env (Resize 500 0 img (Lanczos3 env)) 100 = Inr medium"
    and "jpeg_Encode env (Resize 1000 0 img (Lanczos3 env)) 100 = Inr large"
    and "\<forall>i < 5. fault env (clock w + i) = None"
    and "mset (goroutine_order env (clock w + 2) resizeTasks) = mset resizeTasks"
  shows "\<exists>w' blobs. process_resizer env msg w = (Inr (), w')
    \<and> uploads w' = uploads w @ blobs
    \<and> mset blobs =
        {#(Bucket body, ''resized/'' @ extractFilename_resizer (Key body) @ ''/thumbnail.jpg'',
           thumbnail),
          (Bucket body, ''resized/'' @ extractFilename_resizer (Key body) @ ''/medium.jpg'',
           medium),
          (Bucket body, ''resized/'' @ extractFilename_resizer (Key body) @ ''/large.jpg'',
           large)#}"
proof -
  let ?order = "goroutine_order env (Suc (Suc (clock w))) resizeTasks"
  let ?w2 = "tick (tick w)"
  define enc where "enc task =
    (if Width task = 100 then thumbnail else if Width task = 500 then medium else large)"
    for task :: resizeTask
  let ?blob = "\<lambda>task. (Bucket body, resized_path body task, enc task)"
  have f0: "fault env (clock w) = None" and f1: "fault env (Suc (clock w)) = None"
    using assms(9) [rule_format, of 0] assms(9) [rule_format, of 1] by simp_all
  have run: "process_resizer env msg w
      = (Inr (), fold (resize_goroutine env None body img) ?order ?w2)"
    using assms(1-5) f0 f1 by (rule process_resizer_decoded)
  have perm: "mset ?order = mset resizeTasks"
    using assms(10) by simp
  then have same_set: "set ?order = set resizeTasks" by (rule mset_eq_setD)
  from perm have "size (mset ?order) = size (mset resizeTasks)" by simp
  then have len: "length ?order = 3" by (simp add: resizeTasks_def)
  have encs: "\<forall>task \<in> set ?order.
      convertToJPEG env (Resize (Width task) 0 img (Lanczos3 env)) = Inr (enc task)"
    using assms(6-8) unfolding same_set
    by (simp add: resizeTasks_def convertToJPEG_def enc_def)
  have faults: "\<forall>i < length ?order. fault env (clock ?w2 + i) = None"
  proof (intro allI impI)
    fix i assume "i < length ?order"
    then have "i + 2 < 5" using len by simp
    then have "fault env (clock w + (i + 2)) = None" using assms(9) by blast
    then show "fault env (clock ?w2 + i) = None" by (simp add: tick_def add.commute)
  qed
  have ups: "uploads (fold (resize_goroutine env None body img) ?order ?w2)
      = uploads ?w2 @ map ?blob ?order"
    using encs faults by (rule run_tasks_all_uploaded)
  have "mset (map ?blob ?order) = image_mset ?blob (mset ?order)" by simp
  also have "\<dots> = image_mset ?blob (mset resizeTasks)" using perm by simp
  also have "\<dots> =
        {#(Bucket body, ''resized/'' @ extractFilename_resizer (Key body) @ ''/thumbnail.jpg'',
           thumbnail),
          (Bucket body, ''resized/'' @ extractFilename_resizer (Key body) @ ''/medium.jpg'',
           medium),
          (Bucket body, ''resized/'' @ extractFilename_resizer (Key body) @ ''/large.jpg'',
           large)#}"
    by (simp add: resizeTasks_def resized_path_def ResizedFolder_def enc_def)
  finally have three: "mset (map ?blob ?order) =
        {#(Bucket body, ''resized/'' @ extractFilename_resizer (Key body) @ ''/thumbnail.jpg'',
           thumbnail),
          (Bucket body, ''resized/'' @ extractFilename_resizer (Key body) @ ''/medium.jpg'',
           medium),
          (Bucket body, ''resized/'' @ extractFilename_resizer (Key body) @ ''/large.jpg'',
           large)#}" .
  have "uploads (fold (resize_goroutine env None body img) ?order ?w2)
      = uploads w @ map ?blob ?order"
    using ups by (simp add: tick_def)
  with run three show ?thesis
    by (intro exI [of _ "fold (resize_goroutine env None body img) ?order ?w2"]
        exI [of _ "map ?blob ?order"] conjI)
qed

theorem resizer_uploads_three_sizes_witness:
  "uploads (snd (process_resizer reversed_order_env good_message example_world))
     = [(''pixels'', ''resized/aaa/large.jpg'', [255, 216, 3]),
        (''pixels'', ''resized/aaa/medium.jpg'', [255, 216, 2]),
        (''pixels'', ''resized/aaa/thumbnail.jpg'', [255, 216, 1])]
   \<and> (\<exists>w' blobs. process_resizer reversed_order_env good_message example_world = (Inr (), w')
        \<and> uploads w' = uploads example_world @ blobs
        \<and> mset blobs =
            {#(''pixels'', ''resized/aaa/thumbnail.jpg'', [255, 216, 1]),
              (''pixels'', ''resized/aaa/medium.jpg'', [255, 216, 2]),
              (''pixels'', ''resized/aaa/large.jpg'', [255, 216, 3])#})"
proof -
  let ?body = "\<lparr>Bucket = ''pixels'', Key = ''photos/aaa.png''\<rparr>"
  let ?obj = "stored png_bytes"
  have h: "json_Unmarshal reversed_order_env (Body good_message) = Inr ?body"
      "objects example_world (Bucket ?body, Key ?body) = Some ?obj"
      "ContentType ?obj \<noteq> None" "ContentLength ?obj \<noteq> None"
      "image_Decode reversed_order_env (ObjBody ?obj) = Inr (small_image, ''png'')"
      "jpeg_Encode reversed_order_env (Resize 100 0 small_image (Lanczos3 reversed_order_env)) 100
         = Inr [255, 216, 1]"
      "jpeg_Encode reversed_order_env (Resize 500 0 small_image (Lanczos3 reversed_order_env)) 100
         = Inr [255, 216, 2]"
      "jpeg_Encode reversed_order_env (Resize 1000 0 small_image (Lanczos3 reversed_order_env)) 100
         = Inr [255, 216, 3]"
      "\<forall>i < 5. fault reversed_order_env (clock example_world + i) = None"
      "mset (goroutine_order reversed_order_env (clock example_world + 2) resizeTasks)
         = mset resizeTasks"
    by (simp_all add: reversed_order_env_def fixture_defs stored_def small_image_def
        Resize_def calcFactors_def)
  have name: "extractFilename_resizer (Key ?body) = ''aaa''"
    by (simp add: path_defs)
  have order: "uploads (snd (process_resizer reversed_order_env good_message example_world))
     = [(''pixels'', ''resized/aaa/large.jpg'', [255, 216, 3]),
        (''pixels'', ''resized/aaa/medium.jpg'', [255, 216, 2]),
        (''pixels'', ''resized/aaa/thumbnail.jpg'', [255, 216, 1])]"
    by (simp add: reversed_order_env_def worker_defs fixture_defs io_defs path_defs)
  from resizer_uploads_three_sizes [OF h] name order show ?thesis by simp
qed

text \<open>
  Claim C1 says that the handler reports a failure when one of the three uploads of a
  message fails. It does not: a task that meets an error logs it and returns, nothing
  carries the error to the loop body, and the handler returns nil. Here the upload of
  the medium size fails; the handler reports success and two blobs are in the store.
  (By \<open>process_resizer_decoded\<close>, once the source is decoded the loop body succeeds
  whatever happens in the tasks.)
\<close>

theorem resizer_reports_success_when_an_upload_fails:
  "fault upload_fails_env 3 = Some (Error ''RequestTimeout'')
   \<and> fst (handler_resizer upload_fails_env \<lparr>Records = [good_message]\<rparr> example_world) = None
   \<and> uploads (snd (handler_resizer upload_fails_env \<lparr>Records = [good_message]\<rparr> example_world))
       = [(''pixels'', ''resized/aaa/thumbnail.jpg'', [255, 216, 1]),
          (''pixels'', ''resized/aaa/large.jpg'', [255, 216, 3])]"
  by (simp add: handler_resizer_def upload_fails_env_def worker_defs fixture_defs io_defs
      path_defs)

end
